theory Spec2Isabelle
  imports Complex_Main
begin

section \<open>Bond calculations of \<open>cores/bond_calculations.py\<close>\<close>

text \<open>
  The module is a collection of pure numeric functions on Python numbers. Python floats are
  modelled by the type \<^typ>\<open>real\<close> with exact arithmetic: rounding, overflow to
  infinity and NaN are outside the model. Python integers are \<^typ>\<open>int\<close>. Every
  exception that the arithmetic of the source can raise on real numbers is a value of the
  type \<open>error\<close>, and every function returns \<open>error + result\<close> with \<open>Inl\<close> for a raise.
\<close>

subsection \<open>Python arithmetic\<close>

datatype error = ZeroDivisionError | OverflowError

text \<open>Sequencing of fallible steps: the first raise wins.\<close>

definition rbind :: "error + 'a \<Rightarrow> ('a \<Rightarrow> error + 'b) \<Rightarrow> error + 'b" where
  "rbind m k = (case m of Inl e \<Rightarrow> Inl e | Inr v \<Rightarrow> k v)"

text \<open>True division \<open>a / b\<close>: raises on a zero divisor.\<close>

definition py_div :: "real \<Rightarrow> real \<Rightarrow> error + real" where
  "py_div a b = (if b = 0 then Inl ZeroDivisionError else Inr (a / b))"

text \<open>Floor division \<open>a // b\<close> on integers.\<close>

definition py_floordiv :: "int \<Rightarrow> int \<Rightarrow> error + int" where
  "py_floordiv a b = (if b = 0 then Inl ZeroDivisionError else Inr (a div b))"

text \<open>\<open>x ** n\<close> with an integer exponent: zero to a negative power raises.\<close>

definition py_pow :: "real \<Rightarrow> int \<Rightarrow> error + real" where
  "py_pow x n = (if x = 0 \<and> n < 0 then Inl ZeroDivisionError else Inr (power_int x n))"

text \<open>\<open>int(x)\<close> on a float truncates toward zero.\<close>

definition py_int :: "real \<Rightarrow> int" where
  "py_int x = (if 0 \<le> x then \<lfloor>x\<rfloor> else \<lceil>x\<rceil>)"

subsection \<open>Dates\<close>

text \<open>
  A naive \<open>datetime\<close> is a proleptic Gregorian day number (\<open>toordinal()\<close>, from 1 for
  0001-01-01 to 3652059 for 9999-12-31) and the microsecond within that day.
\<close>

record datetime =
  ordinal :: int
  day_micros :: int

definition max_ordinal :: int where
  "max_ordinal = 3652059"

definition max_delta_days :: int where
  "max_delta_days = 999999999"

definition micros_per_day :: int where
  "micros_per_day = 86400000000"

text \<open>\<open>(a - b).days\<close>: a \<open>timedelta\<close> is normalised with a non-negative remainder.\<close>

definition days_between :: "datetime \<Rightarrow> datetime \<Rightarrow> int" where
  "days_between a b =
     ((ordinal a - ordinal b) * micros_per_day + (day_micros a - day_micros b)) div micros_per_day"

text \<open>
  \<open>d + timedelta(days=k)\<close>: the constructor rejects more than 999999999 days, the addition
  rejects a date outside years 1 to 9999.
\<close>

definition add_days :: "datetime \<Rightarrow> int \<Rightarrow> error + datetime" where
  "add_days d k =
     (if \<bar>k\<bar> > max_delta_days then Inl OverflowError
      else if ordinal d + k < 1 \<or> max_ordinal < ordinal d + k then Inl OverflowError
      else Inr (d\<lparr>ordinal := ordinal d + k\<rparr>))"

subsection \<open>\<open>calculate_bond_price\<close>\<close>

definition calculate_bond_price :: "real \<Rightarrow> real \<Rightarrow> real \<Rightarrow> real \<Rightarrow> int \<Rightarrow> error + real" where
  "calculate_bond_price face_value coupon_rate years_to_maturity yield_rate frequency =
     (if yield_rate = 0 then
        rbind (py_div (face_value * coupon_rate) (of_int frequency)) (\<lambda>coupon_payment.
        Inr ((coupon_payment * years_to_maturity * of_int frequency) + face_value))
      else
        let n_periods = py_int (years_to_maturity * of_int frequency) in
        rbind (py_div (face_value * coupon_rate) (of_int frequency)) (\<lambda>coupon_payment.
        rbind (py_div yield_rate (of_int frequency)) (\<lambda>period_yield.
        rbind (if period_yield \<noteq> 0 then
                 rbind (py_pow (1 + period_yield) (- n_periods)) (\<lambda>p.
                 py_div (coupon_payment * (1 - p)) period_yield)
               else Inr (coupon_payment * of_int n_periods)) (\<lambda>pv_coupons.
        rbind (py_pow (1 + period_yield) n_periods) (\<lambda>q.
        rbind (py_div face_value q) (\<lambda>pv_face_value.
        Inr (pv_coupons + pv_face_value)))))))"

subsection \<open>\<open>calculate_bond_price\<close> within the range of a double\<close>

text \<open>
  Whether a call returns depends on the range of a double, which the exact model above
  leaves out: the conversion of the integer \<open>frequency\<close> to a float in
  \<open>(face_value * coupon_rate) / frequency\<close> and in \<open>years_to_maturity * frequency\<close> raises
  \<open>OverflowError\<close> on an integer beyond the largest finite double, \<open>**\<close> raises
  \<open>OverflowError\<close> when its result lies beyond it, and \<open>int()\<close> raises \<open>OverflowError\<close> on a
  product that has overflowed to infinity. Sums, products and quotients that overflow
  give \<open>inf\<close> or \<open>nan\<close> without a raise, and a power that underflows gives a small number
  or zero without a raise. The model below is the same function with these three raises
  added. Its values are still exact reals: it is used only at a distance from the edge
  of the range that rounding cannot bridge.
\<close>

definition float_max :: real where
  "float_max = 2 ^ 1024 - 2 ^ 971"

definition py_float :: "int \<Rightarrow> error + real" where
  "py_float k = (if float_max < \<bar>of_int k\<bar> then Inl OverflowError else Inr (of_int k))"

definition py_pow_float :: "real \<Rightarrow> int \<Rightarrow> error + real" where
  "py_pow_float x n =
     (if x = 0 \<and> n < 0 then Inl ZeroDivisionError
      else if float_max < \<bar>power_int x n\<bar> then Inl OverflowError
      else Inr (power_int x n))"

definition py_int_float :: "real \<Rightarrow> error + int" where
  "py_int_float x = (if float_max < \<bar>x\<bar> then Inl OverflowError else Inr (py_int x))"

definition calculate_bond_price_float :: "real \<Rightarrow> real \<Rightarrow> real \<Rightarrow> real \<Rightarrow> int \<Rightarrow> error + real" where
  "calculate_bond_price_float face_value coupon_rate years_to_maturity yield_rate frequency =
     (if yield_rate = 0 then
        rbind (py_float frequency) (\<lambda>fr.
        rbind (py_div (face_value * coupon_rate) fr) (\<lambda>coupon_payment.
        Inr ((coupon_payment * years_to_maturity * fr) + face_value)))
      else
        rbind (py_float frequency) (\<lambda>fr.
        rbind (py_int_float (years_to_maturity * fr)) (\<lambda>n_periods.
        rbind (py_div (face_value * coupon_rate) fr) (\<lambda>coupon_payment.
        rbind (py_div yield_rate fr) (\<lambda>period_yield.
        rbind (if period_yield \<noteq> 0 then
                 rbind (py_pow_float (1 + period_yield) (- n_periods)) (\<lambda>p.
                 py_div (coupon_payment * (1 - p)) period_yield)
               else Inr (coupon_payment * of_int n_periods)) (\<lambda>pv_coupons.
        rbind (py_pow_float (1 + period_yield) n_periods) (\<lambda>q.
        rbind (py_div face_value q) (\<lambda>pv_face_value.
        Inr (pv_coupons + pv_face_value)))))))))"

subsection \<open>\<open>calculate_yield_to_maturity\<close>\<close>

text \<open>
  One pass through the body of the \<open>for\<close> loop ends in one of three ways: the \<open>return ytm\<close>
  of the convergence test, the \<open>break\<close> on a zero derivative, or the Newton-Raphson update
  that carries the next \<open>ytm\<close> into the following pass.
\<close>

datatype flow = Return | Break | Continue real

definition ytm_iteration ::
  "real \<Rightarrow> real \<Rightarrow> real \<Rightarrow> real \<Rightarrow> int \<Rightarrow> real \<Rightarrow> real \<Rightarrow> error + flow" where
  "ytm_iteration price face_value coupon_rate years_to_maturity frequency tolerance ytm =
     rbind (calculate_bond_price face_value coupon_rate years_to_maturity ytm frequency)
       (\<lambda>calculated_price.
     if \<bar>calculated_price - price\<bar> < tolerance then Inr Return
     else
       let delta = 1 / 10000 in
       rbind (calculate_bond_price face_value coupon_rate years_to_maturity (ytm + delta) frequency)
         (\<lambda>price_up.
       rbind (py_div (price_up - calculated_price) delta) (\<lambda>derivative.
       if derivative = 0 then Inr Break
       else
         rbind (py_div (calculated_price - price) derivative) (\<lambda>step.
         Inr (Continue (ytm - step))))))"

text \<open>The loop over \<open>range(max_iterations)\<close>, by the number of passes left.\<close>

fun ytm_loop ::
  "real \<Rightarrow> real \<Rightarrow> real \<Rightarrow> real \<Rightarrow> int \<Rightarrow> real \<Rightarrow> nat \<Rightarrow> real \<Rightarrow> error + real" where
  "ytm_loop price face_value coupon_rate years_to_maturity frequency tolerance 0 ytm = Inr ytm"
| "ytm_loop price face_value coupon_rate years_to_maturity frequency tolerance (Suc k) ytm =
     (case ytm_iteration price face_value coupon_rate years_to_maturity frequency tolerance ytm of
        Inl e \<Rightarrow> Inl e
      | Inr Return \<Rightarrow> Inr ytm
      | Inr Break \<Rightarrow> Inr ytm
      | Inr (Continue ytm') \<Rightarrow>
          ytm_loop price face_value coupon_rate years_to_maturity frequency tolerance k ytm')"

definition calculate_yield_to_maturity ::
  "real \<Rightarrow> real \<Rightarrow> real \<Rightarrow> real \<Rightarrow> int \<Rightarrow> real \<Rightarrow> int \<Rightarrow> error + real" where
  "calculate_yield_to_maturity price face_value coupon_rate years_to_maturity frequency
       tolerance max_iterations =
     ytm_loop price face_value coupon_rate years_to_maturity frequency tolerance
       (nat max_iterations) coupon_rate"



subsection \<open>\<open>calculate_macaulay_duration\<close>, \<open>calculate_modified_duration\<close>\<close>

text \<open>The body of the loop over \<open>t\<close>: the new value of \<open>weighted_cash_flows\<close>.\<close>

definition macaulay_step ::
  "real \<Rightarrow> real \<Rightarrow> real \<Rightarrow> int \<Rightarrow> int \<Rightarrow> int \<Rightarrow> real \<Rightarrow> error + real" where
  "macaulay_step coupon_payment face_value period_yield frequency n_periods t weighted_cash_flows =
     (let cash_flow = (if t = n_periods then coupon_payment + face_value else coupon_payment) in
      rbind (py_pow (1 + period_yield) t) (\<lambda>discount.
      rbind (py_div cash_flow discount) (\<lambda>pv_cash_flow.
      rbind (py_div (of_int t) (of_int frequency)) (\<lambda>time_in_years.
      Inr (weighted_cash_flows + time_in_years * pv_cash_flow)))))"

fun macaulay_loop ::
  "real \<Rightarrow> real \<Rightarrow> real \<Rightarrow> int \<Rightarrow> int \<Rightarrow> int list \<Rightarrow> real \<Rightarrow> error + real" where
  "macaulay_loop coupon_payment face_value period_yield frequency n_periods [] w = Inr w"
| "macaulay_loop coupon_payment face_value period_yield frequency n_periods (t # ts) w =
     (case macaulay_step coupon_payment face_value period_yield frequency n_periods t w of
        Inl e \<Rightarrow> Inl e
      | Inr w' \<Rightarrow> macaulay_loop coupon_payment face_value period_yield frequency n_periods ts w')"

definition calculate_macaulay_duration ::
  "real \<Rightarrow> real \<Rightarrow> real \<Rightarrow> real \<Rightarrow> int \<Rightarrow> error + real" where
  "calculate_macaulay_duration face_value coupon_rate years_to_maturity yield_rate frequency =
     (let n_periods = py_int (years_to_maturity * of_int frequency) in
      rbind (py_div (face_value * coupon_rate) (of_int frequency)) (\<lambda>coupon_payment.
      rbind (py_div yield_rate (of_int frequency)) (\<lambda>period_yield.
      rbind (calculate_bond_price face_value coupon_rate years_to_maturity yield_rate frequency)
        (\<lambda>price.
      rbind (macaulay_loop coupon_payment face_value period_yield frequency n_periods
               [1..n_periods] 0) (\<lambda>weighted_cash_flows.
      py_div weighted_cash_flows price)))))"

definition calculate_modified_duration ::
  "real \<Rightarrow> real \<Rightarrow> real \<Rightarrow> real \<Rightarrow> int \<Rightarrow> error + real" where
  "calculate_modified_duration face_value coupon_rate years_to_maturity yield_rate frequency =
     rbind (calculate_macaulay_duration face_value coupon_rate years_to_maturity yield_rate
              frequency) (\<lambda>mac_duration.
     rbind (py_div yield_rate (of_int frequency)) (\<lambda>q.
     py_div mac_duration (1 + q)))"

subsection \<open>\<open>calculate_convexity\<close>\<close>

definition convexity_step ::
  "real \<Rightarrow> real \<Rightarrow> real \<Rightarrow> int \<Rightarrow> int \<Rightarrow> real \<Rightarrow> error + real" where
  "convexity_step coupon_payment face_value period_yield n_periods t convexity_sum =
     (let cash_flow = (if t = n_periods then coupon_payment + face_value else coupon_payment) in
      rbind (py_pow (1 + period_yield) t) (\<lambda>discount.
      rbind (py_div cash_flow discount) (\<lambda>pv_cash_flow.
      Inr (convexity_sum + of_int (t * (t + 1)) * pv_cash_flow))))"

fun convexity_loop ::
  "real \<Rightarrow> real \<Rightarrow> real \<Rightarrow> int \<Rightarrow> int list \<Rightarrow> real \<Rightarrow> error + real" where
  "convexity_loop coupon_payment face_value period_yield n_periods [] s = Inr s"
| "convexity_loop coupon_payment face_value period_yield n_periods (t # ts) s =
     (case convexity_step coupon_payment face_value period_yield n_periods t s of
        Inl e \<Rightarrow> Inl e
      | Inr s' \<Rightarrow> convexity_loop coupon_payment face_value period_yield n_periods ts s')"

definition calculate_convexity ::
  "real \<Rightarrow> real \<Rightarrow> real \<Rightarrow> real \<Rightarrow> int \<Rightarrow> error + real" where
  "calculate_convexity face_value coupon_rate years_to_maturity yield_rate frequency =
     (let n_periods = py_int (years_to_maturity * of_int frequency) in
      rbind (py_div (face_value * coupon_rate) (of_int frequency)) (\<lambda>coupon_payment.
      rbind (py_div yield_rate (of_int frequency)) (\<lambda>period_yield.
      rbind (calculate_bond_price face_value coupon_rate years_to_maturity yield_rate frequency)
        (\<lambda>price.
      rbind (convexity_loop coupon_payment face_value period_yield n_periods [1..n_periods] 0)
        (\<lambda>convexity_sum.
      rbind (py_pow (1 + period_yield) 2) (\<lambda>sq.
      py_div convexity_sum (price * sq * of_int (frequency ^ 2))))))))"

subsection \<open>\<open>calculate_accrued_interest\<close>\<close>

definition calculate_accrued_interest ::
  "real \<Rightarrow> real \<Rightarrow> datetime \<Rightarrow> datetime \<Rightarrow> int \<Rightarrow> error + real" where
  "calculate_accrued_interest face_value coupon_rate last_coupon_date settlement_date frequency =
     (let days_since_last_coupon = days_between settlement_date last_coupon_date in
      rbind (py_div 365 (of_int frequency)) (\<lambda>days_in_period.
      rbind (py_div (face_value * coupon_rate) (of_int frequency)) (\<lambda>coupon_payment.
      rbind (py_div (of_int days_since_last_coupon) days_in_period) (\<lambda>fraction.
      Inr (coupon_payment * fraction)))))"

subsection \<open>\<open>generate_cash_flow_schedule\<close>\<close>

text \<open>The body of the loop over \<open>i\<close>: the pair appended to \<open>schedule\<close>.\<close>

definition schedule_entry ::
  "datetime \<Rightarrow> real \<Rightarrow> real \<Rightarrow> int \<Rightarrow> int \<Rightarrow> int \<Rightarrow> error + (datetime \<times> real)" where
  "schedule_entry start_date coupon_payment face_value frequency n_periods i =
     rbind (py_div (of_int (i * 365)) (of_int frequency)) (\<lambda>days.
     rbind (add_days start_date (py_int days)) (\<lambda>payment_date.
     Inr (payment_date, if i = n_periods then coupon_payment + face_value else coupon_payment)))"

fun schedule_loop ::
  "datetime \<Rightarrow> real \<Rightarrow> real \<Rightarrow> int \<Rightarrow> int \<Rightarrow> int list \<Rightarrow> (datetime \<times> real) list
     \<Rightarrow> error + (datetime \<times> real) list" where
  "schedule_loop start_date coupon_payment face_value frequency n_periods [] schedule =
     Inr schedule"
| "schedule_loop start_date coupon_payment face_value frequency n_periods (i # is) schedule =
     (case schedule_entry start_date coupon_payment face_value frequency n_periods i of
        Inl e \<Rightarrow> Inl e
      | Inr entry \<Rightarrow>
          schedule_loop start_date coupon_payment face_value frequency n_periods is
            (schedule @ [entry]))"

text \<open>
  The wall clock read by \<open>datetime.now()\<close> when \<open>start_date\<close> is \<open>None\<close> is the extra
  argument \<open>now\<close>.
\<close>

definition generate_cash_flow_schedule ::
  "real \<Rightarrow> real \<Rightarrow> real \<Rightarrow> int \<Rightarrow> datetime option \<Rightarrow> datetime
     \<Rightarrow> error + (datetime \<times> real) list" where
  "generate_cash_flow_schedule face_value coupon_rate years_to_maturity frequency start_date now =
     (let start = (case start_date of None \<Rightarrow> now | Some d \<Rightarrow> d);
          n_periods = py_int (years_to_maturity * of_int frequency) in
      rbind (py_div (face_value * coupon_rate) (of_int frequency)) (\<lambda>coupon_payment.
      rbind (py_floordiv 12 frequency) (\<lambda>months_between.
      schedule_loop start coupon_payment face_value frequency n_periods [1..n_periods] [])))"

subsection \<open>\<open>calculate_current_yield\<close>\<close>

definition calculate_current_yield :: "real \<Rightarrow> real \<Rightarrow> real \<Rightarrow> error + real" where
  "calculate_current_yield price face_value coupon_rate =
     (let annual_coupon = face_value * coupon_rate in py_div annual_coupon price)"

section \<open>The formulas of the specification and notions for the proofs\<close>

subsection \<open>The specification's words\<close>

text \<open>
  The closed form of the price as the specification words it: the annuity of the coupons
  plus the discounted face value, over \<open>n\<close> periods at the periodic yield \<open>i\<close>; and the
  price it states for a call, with the period count floored.
\<close>

definition annuity_price :: "real \<Rightarrow> real \<Rightarrow> real \<Rightarrow> int \<Rightarrow> real" where
  "annuity_price cp F i n = cp * (1 - power_int (1 + i) (- n)) / i + F / power_int (1 + i) n"

definition claimed_bond_price :: "real \<Rightarrow> real \<Rightarrow> real \<Rightarrow> real \<Rightarrow> int \<Rightarrow> real" where
  "claimed_bond_price F c Y y f =
     (if y = 0 then (F * c / of_int f) * (Y * of_int f) + F
      else annuity_price (F * c / of_int f) F (y / of_int f) \<lfloor>Y * of_int f\<rfloor>)"

text \<open>
  The valid bond terms of the specification's data model: a positive face value, a
  non-negative coupon rate, a positive maturity, a positive frequency and at least one
  whole period.
\<close>

definition valid_bond_terms :: "real \<Rightarrow> real \<Rightarrow> real \<Rightarrow> int \<Rightarrow> bool" where
  "valid_bond_terms F c Y f = (0 < F \<and> 0 \<le> c \<and> 0 < Y \<and> 0 < f \<and> 1 \<le> \<lfloor>Y * of_int f\<rfloor>)"

subsection \<open>Notions for the proofs\<close>

text \<open>
  The present value of \<open>n\<close> coupons \<open>cp\<close> and of the face value \<open>F\<close>, each discounted by
  the factor \<open>x = 1 + period_yield\<close> per period.
\<close>

definition discounted_sum :: "real \<Rightarrow> real \<Rightarrow> real \<Rightarrow> nat \<Rightarrow> real" where
  "discounted_sum cp F x n = cp * (\<Sum>t = 1..n. inverse x ^ t) + F * inverse x ^ n"

text \<open>
  The value of \<open>ytm\<close> after \<open>j\<close> passes of the solver's loop that all ended in the
  Newton-Raphson update; \<open>None\<close> when one of them left the loop or raised.
\<close>

fun ytm_after ::
  "real \<Rightarrow> real \<Rightarrow> real \<Rightarrow> real \<Rightarrow> int \<Rightarrow> real \<Rightarrow> nat \<Rightarrow> real \<Rightarrow> real option" where
  "ytm_after price face_value coupon_rate years_to_maturity frequency tolerance 0 ytm = Some ytm"
| "ytm_after price face_value coupon_rate years_to_maturity frequency tolerance (Suc j) ytm =
     (case ytm_iteration price face_value coupon_rate years_to_maturity frequency tolerance ytm of
        Inr (Continue ytm') \<Rightarrow>
          ytm_after price face_value coupon_rate years_to_maturity frequency tolerance j ytm'
      | _ \<Rightarrow> None)"



text \<open>The values a \<open>datetime\<close> object can hold.\<close>

definition valid_datetime :: "datetime \<Rightarrow> bool" where
  "valid_datetime d =
     (1 \<le> ordinal d \<and> ordinal d \<le> max_ordinal \<and> 0 \<le> day_micros d \<and> day_micros d < micros_per_day)"

text \<open>
  The schedule entry of period \<open>i\<close>: the start date moved by \<open>i * 365 / f\<close> days rounded
  down, with the coupon, and the face value on top in the last period \<open>n\<close>.
\<close>

definition payment :: "datetime \<Rightarrow> real \<Rightarrow> real \<Rightarrow> int \<Rightarrow> int \<Rightarrow> int \<Rightarrow> datetime \<times> real" where
  "payment start cp F f n i =
     (start\<lparr>ordinal := ordinal start + (i * 365) div f\<rparr>, if i = n then cp + F else cp)"

section \<open>Properties\<close>

lemma rbind_Inr [simp]: "rbind (Inr v) k = k v"
  by (simp add: rbind_def)

lemma rbind_Inl [simp]: "rbind (Inl e) k = Inl e"
  by (simp add: rbind_def)

subsection \<open>The price\<close>

lemma price_zero_yield:
  "f \<noteq> 0 \<Longrightarrow> calculate_bond_price F c Y 0 f = Inr ((F * c / of_int f) * Y * of_int f + F)"
  by (simp add: calculate_bond_price_def py_div_def)

lemma price_nonzero_yield:
  assumes "f \<noteq> 0" "y \<noteq> 0" "1 + y / of_int f \<noteq> 0 \<or> py_int (Y * of_int f) = 0"
  shows "calculate_bond_price F c Y y f =
           Inr ((F * c / of_int f) * (1 - power_int (1 + y / of_int f) (- py_int (Y * of_int f)))
                  / (y / of_int f)
                + F / power_int (1 + y / of_int f) (py_int (Y * of_int f)))"
  using assms
  by (auto simp add: calculate_bond_price_def py_div_def py_pow_def Let_def)

lemma price_raises:
  assumes "f \<noteq> 0" "y \<noteq> 0" "1 + y / of_int f = 0" "py_int (Y * of_int f) \<noteq> 0"
  shows "calculate_bond_price F c Y y f = Inl ZeroDivisionError"
  using assms
  by (auto simp add: calculate_bond_price_def py_div_def py_pow_def Let_def)

lemma py_int_nonneg: "0 \<le> x \<Longrightarrow> py_int x = \<lfloor>x\<rfloor>"
  by (simp add: py_int_def)

lemma py_int_neg: "x < 0 \<Longrightarrow> py_int x = \<lceil>x\<rceil>"
  by (simp add: py_int_def)

lemma py_int_small: "- 1 < x \<Longrightarrow> x < 1 \<Longrightarrow> py_int x = 0"
  unfolding py_int_def by (auto simp add: floor_eq_iff ceiling_eq_iff)

text \<open>
  C1. For a positive frequency, the price at a zero yield is \<open>(F*c/f) * (Y*f) + F\<close> with the
  unfloored product. At a non-zero yield the period count is \<open>int(Y*f)\<close>, truncated toward
  zero, which is \<open>floor(Y*f)\<close> for \<open>Y \<ge> 0\<close>; with \<open>i = yield_rate/f\<close> the price is
  \<open>(F*c/f) * (1 - (1+i)^(-n)) / i + F/(1+i)^n\<close> provided \<open>1 + i \<noteq> 0\<close> or \<open>n = 0\<close>. With
  \<open>1 + i = 0\<close> and \<open>n \<noteq> 0\<close> the call raises \<open>ZeroDivisionError\<close>.
\<close>

theorem bond_price_formula:
  assumes "0 < f"
  shows "(y = 0 \<or> 0 \<le> Y \<and> (1 + y / of_int f \<noteq> 0 \<or> \<lfloor>Y * of_int f\<rfloor> = 0) \<longrightarrow>
            calculate_bond_price F c Y y f = Inr (claimed_bond_price F c Y y f))
       \<and> (y \<noteq> 0 \<and> (1 + y / of_int f \<noteq> 0 \<or> py_int (Y * of_int f) = 0) \<longrightarrow>
            calculate_bond_price F c Y y f =
              Inr (annuity_price (F * c / of_int f) F (y / of_int f) (py_int (Y * of_int f))))
       \<and> (y \<noteq> 0 \<and> 1 + y / of_int f = 0 \<and> py_int (Y * of_int f) \<noteq> 0 \<longrightarrow>
            calculate_bond_price F c Y y f = Inl ZeroDivisionError)"
proof (intro conjI impI)
  have f0: "f \<noteq> 0" using assms by simp
  {
    assume h: "y = 0 \<or> 0 \<le> Y \<and> (1 + y / of_int f \<noteq> 0 \<or> \<lfloor>Y * of_int f\<rfloor> = 0)"
    show "calculate_bond_price F c Y y f = Inr (claimed_bond_price F c Y y f)"
    proof (cases "y = 0")
      case True
      then show ?thesis using price_zero_yield [OF f0, of F c Y]
        by (simp add: claimed_bond_price_def)
    next
      case False
      with h have Y: "0 \<le> Y" and z: "1 + y / of_int f \<noteq> 0 \<or> \<lfloor>Y * of_int f\<rfloor> = 0" by auto
      have "0 \<le> Y * of_int f" using Y assms by simp
      then have n: "py_int (Y * of_int f) = \<lfloor>Y * of_int f\<rfloor>" by (rule py_int_nonneg)
      show ?thesis
        using price_nonzero_yield [OF f0 False, of Y F c] z False
        by (simp add: n claimed_bond_price_def annuity_price_def)
    qed
  }
  {
    assume "y \<noteq> 0 \<and> (1 + y / of_int f \<noteq> 0 \<or> py_int (Y * of_int f) = 0)"
    then show "calculate_bond_price F c Y y f =
        Inr (annuity_price (F * c / of_int f) F (y / of_int f) (py_int (Y * of_int f)))"
      using price_nonzero_yield [OF f0, of y Y F c] by (simp add: annuity_price_def)
  }
  {
    assume "y \<noteq> 0 \<and> 1 + y / of_int f = 0 \<and> py_int (Y * of_int f) \<noteq> 0"
    then show "calculate_bond_price F c Y y f = Inl ZeroDivisionError"
      using price_raises [OF f0, of y Y F c] by simp
  }
qed

text \<open>
  Two calls where the price is not the formula with the floored period count: a yield of
  \<open>-f\<close> raises, and a negative maturity is truncated toward zero, not floored.
\<close>

theorem bond_price_formula_counterexample:
  "calculate_bond_price 1000 (1 / 20) 5 (- 2) 2 = Inl ZeroDivisionError
   \<and> calculate_bond_price 1000 (1 / 2) (- (1 / 2)) 1 1 = Inr 1000
   \<and> claimed_bond_price 1000 (1 / 2) (- (1 / 2)) 1 1 = 1500"
  by (simp add: calculate_bond_price_def claimed_bond_price_def annuity_price_def py_div_def
      py_pow_def py_int_def Let_def ceiling_def)

theorem bond_price_formula_witness:
  "calculate_bond_price 1000 (1 / 20) (5 / 2) 0 2 = Inr 1125
   \<and> calculate_bond_price 1000 (1 / 20) (3 / 2) (1 / 20) 1 = Inr 1000
   \<and> calculate_bond_price 1000 (1 / 10) (- (5 / 2)) 1 1 = Inr 3700
   \<and> calculate_bond_price 1000 (1 / 20) 3 (- 4) 4 = Inl ZeroDivisionError"
proof -
  have f1: "(0::int) < 1" and f2: "(0::int) < 2" and f4: "(0::int) < 4" by simp_all
  have a: "calculate_bond_price 1000 (1 / 20) (5 / 2) 0 2 = Inr 1125"
    using bond_price_formula [OF f2, of 0 "5 / 2" 1000 "1 / 20"]
    by (simp add: claimed_bond_price_def)
  have b: "calculate_bond_price 1000 (1 / 20) (3 / 2) (1 / 20) 1 = Inr 1000"
    using bond_price_formula [OF f1, of "1 / 20" "3 / 2" 1000 "1 / 20"]
    by (simp add: claimed_bond_price_def annuity_price_def)
  have c: "calculate_bond_price 1000 (1 / 10) (- (5 / 2)) 1 1 = Inr 3700"
    using bond_price_formula [OF f1, of 1 "- (5 / 2)" 1000 "1 / 10"]
    by (simp add: annuity_price_def py_int_def ceiling_def)
  have d: "calculate_bond_price 1000 (1 / 20) 3 (- 4) 4 = Inl ZeroDivisionError"
    using bond_price_formula [OF f4, of "- 4" 3 1000 "1 / 20"]
    by (simp add: py_int_def)
  show ?thesis using a b c d by simp
qed

lemma float_max_pos: "0 < float_max"
  by (simp add: float_max_def)

lemma float_max_lower: "2 ^ 1000 \<le> float_max"
  by (simp add: float_max_def)

lemma float_max_upper: "float_max < 2 ^ 1025"
  by (simp add: float_max_def)

lemma price_float_zero_yield:
  assumes "0 < f" "of_int f \<le> float_max"
  shows "calculate_bond_price_float F c Y 0 f = Inr ((F * c / of_int f) * Y * of_int f + F)"
  using assms by (simp add: calculate_bond_price_float_def py_float_def py_div_def rbind_def)

lemma price_float_cases:
  assumes "0 < f" "of_int f \<le> float_max" "y \<noteq> 0"
  shows "calculate_bond_price_float F c Y y f =
     (if float_max < \<bar>Y * of_int f\<bar> then Inl OverflowError
      else if 1 + y / of_int f = 0 \<and> py_int (Y * of_int f) \<noteq> 0 then Inl ZeroDivisionError
      else if float_max < \<bar>power_int (1 + y / of_int f) (- py_int (Y * of_int f))\<bar>
              \<or> float_max < \<bar>power_int (1 + y / of_int f) (py_int (Y * of_int f))\<bar>
           then Inl OverflowError
      else calculate_bond_price F c Y y f)"
proof -
  let ?n = "py_int (Y * of_int f)" and ?x = "1 + y / of_int f"
  have i0: "y / of_int f \<noteq> 0" using assms by simp
  have fl: "py_float f = Inr (of_int f)" using assms by (simp add: py_float_def)
  show ?thesis
  proof (cases "?x = 0")
    case True
    then show ?thesis using assms i0 float_max_pos fl
      by (auto simp add: calculate_bond_price_float_def calculate_bond_price_def py_int_float_def
          py_pow_float_def py_pow_def py_div_def Let_def power_int_0_left_if rbind_def)
  next
    case False
    then have q0: "power_int ?x ?n \<noteq> 0" by simp
    show ?thesis using assms i0 False q0 fl
      by (auto simp add: calculate_bond_price_float_def calculate_bond_price_def py_int_float_def
          py_pow_float_def py_pow_def py_div_def Let_def rbind_def)
  qed
qed

lemma power_below_next:
  fixes x :: real
  assumes "0 < x" "x ^ Suc k \<le> B" "1 \<le> B"
  shows "x ^ k \<le> B"
proof (cases "1 \<le> x")
  case True
  then have "x ^ k \<le> x ^ Suc k" by (intro power_increasing) simp_all
  then show ?thesis using assms(2) by (rule order_trans)
next
  case False
  then have "x ^ k \<le> 1" using assms(1) by (intro power_le_one) simp_all
  then show ?thesis using assms(3) by (rule order_trans)
qed

lemma power_int_in_range:
  fixes x :: real
  assumes x: "0 < x"
    and up: "x ^ Suc (nat \<bar>n\<bar>) \<le> 2 ^ 1000"
    and dn: "inverse x ^ Suc (nat \<bar>n\<bar>) \<le> 2 ^ 1000"
  shows "\<bar>power_int x n\<bar> \<le> float_max"
proof -
  have ix: "0 < inverse x" using x by simp
  have a: "x ^ nat \<bar>n\<bar> \<le> 2 ^ 1000" using x up by (rule power_below_next) simp
  have b: "inverse x ^ nat \<bar>n\<bar> \<le> 2 ^ 1000" using ix dn by (rule power_below_next) simp
  have nn: "0 \<le> power_int x n" using x by simp
  have "power_int x n \<le> 2 ^ 1000"
  proof (cases "0 \<le> n")
    case True
    then have "power_int x n = x ^ nat \<bar>n\<bar>" by (simp add: power_int_def)
    then show ?thesis using a by simp
  next
    case False
    then have "power_int x n = inverse x ^ nat \<bar>n\<bar>" by (simp add: power_int_def)
    then show ?thesis using b by simp
  qed
  then have "power_int x n \<le> float_max" using float_max_lower by (rule order_trans)
  then show ?thesis using nn by simp
qed

text \<open>
  C6. Let the frequency be positive and within the range of a double. At a distance from
  the edge of that range that rounding cannot bridge, \<open>calculate_bond_price\<close> returns a
  number, namely that of the exact model, whenever \<open>yield_rate = 0\<close>, or whenever
  \<open>|Y*f| \<le> 10^15\<close>, \<open>1 + period_yield \<ge> 1/2\<close> and the powers of \<open>1 + period_yield\<close> and of its
  inverse with one period more than \<open>|int(Y*f)|\<close> are at most \<open>2^1000\<close>. It raises
  \<open>ZeroDivisionError\<close> at \<open>yield_rate = -frequency\<close> with a non-zero period count, and
  \<open>OverflowError\<close> when \<open>period_yield \<ge> 1/2\<close>, there is at least one period and
  \<open>(1 + period_yield) ^ n_periods\<close> is at least \<open>2^1025\<close>.
\<close>

theorem bond_price_returns:
  assumes "0 < f" and "of_int f \<le> float_max"
  shows "(y = 0 \<or> \<bar>Y * of_int f\<bar> \<le> 10 ^ 15 \<and> 1 / 2 \<le> 1 + y / of_int f
             \<and> (1 + y / of_int f) ^ Suc (nat \<bar>py_int (Y * of_int f)\<bar>) \<le> 2 ^ 1000
             \<and> inverse (1 + y / of_int f) ^ Suc (nat \<bar>py_int (Y * of_int f)\<bar>) \<le> 2 ^ 1000
          \<longrightarrow> (\<exists>v. calculate_bond_price_float F c Y y f = Inr v
                   \<and> calculate_bond_price F c Y y f = Inr v))
       \<and> (y = - of_int f \<and> \<bar>Y * of_int f\<bar> \<le> float_max \<and> py_int (Y * of_int f) \<noteq> 0
          \<longrightarrow> calculate_bond_price_float F c Y y f = Inl ZeroDivisionError)
       \<and> (1 / 2 \<le> y / of_int f \<and> 1 \<le> py_int (Y * of_int f)
             \<and> 2 ^ 1025 \<le> (1 + y / of_int f) ^ nat (py_int (Y * of_int f))
          \<longrightarrow> calculate_bond_price_float F c Y y f = Inl OverflowError)"
proof (intro conjI impI)
  let ?n = "py_int (Y * of_int f)" and ?x = "1 + y / of_int f"
  have f0: "f \<noteq> 0" using assms(1) by simp
  assume h: "y = 0 \<or> \<bar>Y * of_int f\<bar> \<le> 10 ^ 15 \<and> 1 / 2 \<le> ?x
             \<and> ?x ^ Suc (nat \<bar>?n\<bar>) \<le> 2 ^ 1000 \<and> inverse ?x ^ Suc (nat \<bar>?n\<bar>) \<le> 2 ^ 1000"
  show "\<exists>v. calculate_bond_price_float F c Y y f = Inr v \<and> calculate_bond_price F c Y y f = Inr v"
  proof (cases "y = 0")
    case True
    then show ?thesis
      using price_float_zero_yield [OF assms, of F c Y] price_zero_yield [OF f0, of F c Y]
      by simp
  next
    case False
    with h have r: "\<bar>Y * of_int f\<bar> \<le> 10 ^ 15" and x: "1 / 2 \<le> ?x"
      and up: "?x ^ Suc (nat \<bar>?n\<bar>) \<le> 2 ^ 1000" and dn: "inverse ?x ^ Suc (nat \<bar>?n\<bar>) \<le> 2 ^ 1000"
      by blast+
    have "(0::real) < 1 / 2" by simp
    then have x0: "0 < ?x" using x by (rule less_le_trans)
    have "(10::real) ^ 15 \<le> 2 ^ 1000" by simp
    with r have "\<bar>Y * of_int f\<bar> \<le> 2 ^ 1000" by (rule order_trans)
    then have r': "\<not> float_max < \<bar>Y * of_int f\<bar>" using float_max_lower by simp
    have p1: "\<not> float_max < \<bar>power_int ?x (- ?n)\<bar>"
      using power_int_in_range [OF x0, of "- ?n"] up dn by simp
    have p2: "\<not> float_max < \<bar>power_int ?x ?n\<bar>"
      using power_int_in_range [OF x0, of ?n] up dn by simp
    have xn: "?x \<noteq> 0" using x0 by simp
    have e: "calculate_bond_price_float F c Y y f = calculate_bond_price F c Y y f"
      using price_float_cases [OF assms False, of F c Y] r' p1 p2 xn by simp
    have "\<exists>v. calculate_bond_price F c Y y f = Inr v"
      using price_nonzero_yield [OF f0 False, of Y F c] xn by simp
    then show ?thesis using e by simp
  qed
next
  let ?n = "py_int (Y * of_int f)" and ?x = "1 + y / of_int f"
  assume h: "y = - of_int f \<and> \<bar>Y * of_int f\<bar> \<le> float_max \<and> ?n \<noteq> 0"
  then have y0: "y \<noteq> 0" and xz: "?x = 0" using assms(1) by simp_all
  show "calculate_bond_price_float F c Y y f = Inl ZeroDivisionError"
    using price_float_cases [OF assms y0, of F c Y] h xz by (simp add: not_less)
next
  let ?n = "py_int (Y * of_int f)" and ?x = "1 + y / of_int f"
  assume h: "1 / 2 \<le> y / of_int f \<and> 1 \<le> ?n \<and> 2 ^ 1025 \<le> ?x ^ nat ?n"
  then have i: "1 / 2 \<le> y / of_int f" and n: "1 \<le> ?n" and big: "2 ^ 1025 \<le> ?x ^ nat ?n"
    by blast+
  have "(0::real) < 1 / 2" by simp
  then have ip: "0 < y / of_int f" using i by (rule less_le_trans)
  have y0: "y \<noteq> 0" using ip by auto
  have xp: "0 < ?x" by (rule add_pos_pos) (simp, rule ip)
  have x0: "?x \<noteq> 0" using xp by (metis less_irrefl)
  have "power_int ?x ?n = ?x ^ nat ?n" using n by (simp add: power_int_def)
  then have "2 ^ 1025 \<le> \<bar>power_int ?x ?n\<bar>" using big by simp
  with float_max_upper have "float_max < \<bar>power_int ?x ?n\<bar>" by (rule less_le_trans)
  then show "calculate_bond_price_float F c Y y f = Inl OverflowError"
    using price_float_cases [OF assms y0, of F c Y] x0 by simp
qed

text \<open>
  A zero-coupon bond of ten annual periods at a yield of -100 percent divides by zero; a
  monthly bond of thirty years at a yield of 80 overflows in \<open>(1 + 80/12) ** 360\<close>.
\<close>

theorem bond_price_error_counterexample:
  "calculate_bond_price_float 100 0 10 (- 1) 1 = Inl ZeroDivisionError
   \<and> calculate_bond_price_float 1000 (1 / 20) 30 80 12 = Inl OverflowError"
proof -
  have r1: "(0::int) < 1" "of_int 1 \<le> float_max" by (simp_all add: float_max_def)
  have r12: "(0::int) < 12" "of_int 12 \<le> float_max" by (simp_all add: float_max_def)
  have a: "calculate_bond_price_float 100 0 10 (- 1) 1 = Inl ZeroDivisionError"
    using price_float_cases [OF r1, of "- 1" 100 0 10] by (simp add: py_int_def float_max_def)
  have n: "py_int (30 * of_int 12) = 360" by (simp add: py_int_def)
  have big: "float_max < \<bar>power_int (1 + 80 / of_int 12) 360\<bar>"
    by (simp add: float_max_def power_int_def power_divide)
  have b: "calculate_bond_price_float 1000 (1 / 20) 30 80 12 = Inl OverflowError"
    using price_float_cases [OF r12, of 80 1000 "1 / 20" 30] big n by (simp add: float_max_def)
  show ?thesis using a b by simp
qed

theorem bond_price_returns_witness:
  "(0::int) < 2 \<and> of_int 2 \<le> float_max
   \<and> \<bar>5 * of_int 2 :: real\<bar> \<le> 10 ^ 15 \<and> (1 / 2 :: real) \<le> 1 + (1 / 10) / of_int 2
   \<and> (1 + (1 / 10) / of_int 2 :: real) ^ Suc (nat \<bar>py_int (5 * of_int 2)\<bar>) \<le> 2 ^ 1000
   \<and> inverse (1 + (1 / 10) / of_int 2 :: real) ^ Suc (nat \<bar>py_int (5 * of_int 2)\<bar>) \<le> 2 ^ 1000
   \<and> (\<exists>v. calculate_bond_price_float 1000 (1 / 20) 5 (1 / 10) 2 = Inr v
          \<and> calculate_bond_price 1000 (1 / 20) 5 (1 / 10) 2 = Inr v)
   \<and> calculate_bond_price_float 1000 (1 / 20) 5 0 2 = Inr 1250
   \<and> (- 2 :: real) = - of_int 2 \<and> \<bar>5 * of_int 2 :: real\<bar> \<le> float_max \<and> py_int (5 * of_int 2) \<noteq> 0
   \<and> calculate_bond_price_float 1000 (1 / 20) 5 (- 2) 2 = Inl ZeroDivisionError
   \<and> (1 / 2 :: real) \<le> 2 / of_int 2 \<and> 1 \<le> py_int (1025 * of_int 2)
   \<and> (2 :: real) ^ 1025 \<le> (1 + 2 / of_int 2) ^ nat (py_int (1025 * of_int 2))
   \<and> calculate_bond_price_float 1000 (1 / 20) 1025 2 2 = Inl OverflowError"
proof -
  have f2: "(0::int) < 2" and m2: "of_int 2 \<le> float_max" by (simp_all add: float_max_def)
  have n: "py_int (5 * of_int 2) = 10" and n': "py_int (1025 * of_int 2) = 2050"
    by (simp_all add: py_int_def)
  have h1: "\<bar>5 * of_int 2 :: real\<bar> \<le> 10 ^ 15" "(1 / 2 :: real) \<le> 1 + (1 / 10) / of_int 2"
    "(1 + (1 / 10) / of_int 2 :: real) ^ Suc (nat \<bar>py_int (5 * of_int 2)\<bar>) \<le> 2 ^ 1000"
    "inverse (1 + (1 / 10) / of_int 2 :: real) ^ Suc (nat \<bar>py_int (5 * of_int 2)\<bar>) \<le> 2 ^ 1000"
    unfolding n by (simp_all add: power_divide)
  have h2: "(- 2 :: real) = - of_int 2" "\<bar>5 * of_int 2 :: real\<bar> \<le> float_max"
    "py_int (5 * of_int 2) \<noteq> 0"
    unfolding n by (simp_all add: float_max_def)
  have h3: "(1 / 2 :: real) \<le> 2 / of_int 2" "1 \<le> py_int (1025 * of_int 2)"
    "(2 :: real) ^ 1025 \<le> (1 + 2 / of_int 2) ^ nat (py_int (1025 * of_int 2))"
    unfolding n' by simp_all
  have a: "\<exists>v. calculate_bond_price_float 1000 (1 / 20) 5 (1 / 10) 2 = Inr v
          \<and> calculate_bond_price 1000 (1 / 20) 5 (1 / 10) 2 = Inr v"
    using bond_price_returns [OF f2 m2, of "1 / 10" 5 1000 "1 / 20"] h1 by blast
  have z: "calculate_bond_price_float 1000 (1 / 20) 5 0 2 = Inr 1250"
    using bond_price_returns [OF f2 m2, of 0 5 1000 "1 / 20"] price_zero_yield [of 2 1000 "1 / 20" 5]
    by simp
  have b: "calculate_bond_price_float 1000 (1 / 20) 5 (- 2) 2 = Inl ZeroDivisionError"
    using bond_price_returns [OF f2 m2, of "- 2" 5 1000 "1 / 20"] h2 by blast
  have c: "calculate_bond_price_float 1000 (1 / 20) 1025 2 2 = Inl OverflowError"
    using bond_price_returns [OF f2 m2, of 2 1025 1000 "1 / 20"] h3 by blast
  show ?thesis using f2 m2 h1 a z h2 b h3 c by blast
qed

text \<open>
  C10. For a positive frequency, a non-zero yield with \<open>1 + yield_rate/f \<noteq> 0\<close>, and
  \<open>-1 < Y*f < 1\<close>, the period count is zero and the price is the face value.
\<close>

theorem degenerate_price:
  assumes "0 < f" "y \<noteq> 0" "1 + y / of_int f \<noteq> 0" "- 1 < Y * of_int f" "Y * of_int f < 1"
  shows "calculate_bond_price F c Y y f = Inr F"
proof -
  have f0: "f \<noteq> 0" using assms by simp
  have n: "py_int (Y * of_int f) = 0" using assms(4,5) by (rule py_int_small)
  show ?thesis
    using price_nonzero_yield [OF f0 assms(2), of Y F c] assms(3) by (simp add: n)
qed

text \<open>
  With \<open>Y*f \<le> -1\<close> the period count is not zero: a maturity of minus one year gives minus
  one period and a price that is not the face value.
\<close>

theorem degenerate_price_counterexample:
  "(0::int) < 1 \<and> (1::real) \<noteq> 0 \<and> (1::real) + 1 / of_int 1 \<noteq> 0 \<and> (- 1::real) * of_int 1 < 1
   \<and> \<lfloor>(- 1::real) * of_int 1\<rfloor> = - 1
   \<and> calculate_bond_price 1000 (1 / 2) (- 1) 1 1 = Inr 1500"
  by (simp add: calculate_bond_price_def py_div_def py_pow_def py_int_def Let_def ceiling_def
      floor_eq_iff)

theorem degenerate_price_witness:
  "(0::int) < 2 \<and> (1 / 10 :: real) \<noteq> 0 \<and> (1::real) + (1 / 10) / of_int 2 \<noteq> 0
   \<and> (- 1::real) < (1 / 4) * of_int 2 \<and> (1 / 4 :: real) * of_int 2 < 1
   \<and> calculate_bond_price 1000 (1 / 20) (1 / 4) (1 / 10) 2 = Inr 1000"
proof -
  have h: "(0::int) < 2" "(1 / 10 :: real) \<noteq> 0" "(1::real) + (1 / 10) / of_int 2 \<noteq> 0"
    "(- 1::real) < (1 / 4) * of_int 2" "(1 / 4 :: real) * of_int 2 < 1" by simp_all
  show ?thesis using degenerate_price [OF h, of 1000 "1 / 20"] h by simp
qed

subsection \<open>The price as a function of the yield\<close>

lemma annuity_geometric:
  fixes x :: real
  assumes "x \<noteq> 0" "x \<noteq> 1"
  shows "(1 - inverse x ^ n) / (x - 1) = (\<Sum>t = 1..n. inverse x ^ t)"
proof (induction n)
  case 0
  show ?case by simp
next
  case (Suc n)
  have "(1 - inverse x ^ Suc n) / (x - 1) = (1 - inverse x ^ n) / (x - 1) + inverse x ^ Suc n"
    using assms by (simp add: field_simps)
  then show ?case using Suc by simp
qed

lemma annuity_price_sum:
  assumes "0 \<le> n" "1 + i \<noteq> 0" "i \<noteq> 0"
  shows "annuity_price cp F i n = discounted_sum cp F (1 + i) (nat n)"
proof -
  have p: "power_int (1 + i) n = (1 + i) ^ nat n" using assms(1) by (simp add: power_int_def)
  have m: "power_int (1 + i) (- n) = inverse (1 + i) ^ nat n"
    using assms(1) by (simp add: power_int_minus p power_inverse)
  have g: "(1 - inverse (1 + i) ^ nat n) / i = (\<Sum>t = 1..nat n. inverse (1 + i) ^ t)"
    using annuity_geometric [of "1 + i" "nat n"] assms by simp
  have "cp * (1 - inverse (1 + i) ^ nat n) / i = cp * ((1 - inverse (1 + i) ^ nat n) / i)"
    by simp
  also have "\<dots> = cp * (\<Sum>t = 1..nat n. inverse (1 + i) ^ t)"
    by (simp only: g)
  finally have "cp * (1 - inverse (1 + i) ^ nat n) / i = cp * (\<Sum>t = 1..nat n. inverse (1 + i) ^ t)" .
  then show ?thesis
    by (simp add: annuity_price_def discounted_sum_def p m divide_inverse power_inverse)
qed



lemma price_discounted_sum:
  assumes "0 < f" "y \<noteq> 0" "0 < 1 + y / of_int f" "0 \<le> Y"
  shows "calculate_bond_price F c Y y f =
           Inr (discounted_sum (F * c / of_int f) F (1 + y / of_int f) (nat \<lfloor>Y * of_int f\<rfloor>))"
proof -
  have f0: "f \<noteq> 0" using assms by simp
  have "0 \<le> Y * of_int f" using assms by simp
  then have n: "py_int (Y * of_int f) = \<lfloor>Y * of_int f\<rfloor>" and n0: "0 \<le> \<lfloor>Y * of_int f\<rfloor>"
    by (simp_all add: py_int_nonneg)
  have i0: "y / of_int f \<noteq> 0" using assms by simp
  have x0: "1 + y / of_int f \<noteq> 0" using assms by simp
  have "calculate_bond_price F c Y y f =
      Inr (annuity_price (F * c / of_int f) F (y / of_int f) \<lfloor>Y * of_int f\<rfloor>)"
    using price_nonzero_yield [OF f0 assms(2), of Y F c] x0 by (simp add: n annuity_price_def)
  then show ?thesis using annuity_price_sum [OF n0 x0 i0] by simp
qed

text \<open>
  C2. The price is meant to fall, or stay, as the yield rises. The branch for a yield of
  exactly zero multiplies the coupon by the unfloored \<open>Y*f\<close>, while the general branch
  counts \<open>int(Y*f)\<close> coupons. For valid terms with one and a half periods and a coupon of
  10 percent, the price at a yield of -1 percent is 1111.11 and the price at the higher
  yield 0 is 1150; the general branch tends to 1100 at zero.
\<close>

theorem price_zero_yield_branch:
  "valid_bond_terms 1000 (1 / 10) (3 / 2) 1 \<and> (- (1 / 100) :: real) < 0
   \<and> (0::real) < 1 + (- (1 / 100)) / of_int 1
   \<and> calculate_bond_price 1000 (1 / 10) (3 / 2) (- (1 / 100)) 1 = Inr (110000 / 99)
   \<and> calculate_bond_price 1000 (1 / 10) (3 / 2) 0 1 = Inr 1150
   \<and> (110000 / 99 :: real) < 1150
   \<and> discounted_sum (1000 * (1 / 10) / of_int 1) 1000 1 (nat (py_int (3 / 2 * of_int 1))) = 1100"
  by (simp add: valid_bond_terms_def calculate_bond_price_def py_div_def py_pow_def py_int_def
      Let_def discounted_sum_def)

subsection \<open>The yield solver\<close>

lemma ytm_loop_after:
  "ytm_after P F c Y f tol j y = Some z \<Longrightarrow>
     ytm_loop P F c Y f tol (j + k) y = ytm_loop P F c Y f tol k z"
proof (induction j arbitrary: y)
  case 0
  then show ?case by simp
next
  case (Suc j)
  from Suc.prems obtain y' where it: "ytm_iteration P F c Y f tol y = Inr (Continue y')"
    and af: "ytm_after P F c Y f tol j y' = Some z"
    by (auto split: sum.splits flow.splits)
  from Suc.IH [OF af] it show ?case by simp
qed

lemma ytm_iteration_return:
  assumes "calculate_bond_price F c Y z f = Inr cp" "\<bar>cp - P\<bar> < tol"
  shows "ytm_iteration P F c Y f tol z = Inr Return"
  using assms by (simp add: ytm_iteration_def)

lemma ytm_iteration_break:
  assumes "calculate_bond_price F c Y z f = Inr cp" "\<not> \<bar>cp - P\<bar> < tol"
    "calculate_bond_price F c Y (z + 1 / 10000) f = Inr pu" "(pu - cp) / (1 / 10000) = 0"
  shows "ytm_iteration P F c Y f tol z = Inr Break"
  using assms by (simp add: ytm_iteration_def py_div_def Let_def)

text \<open>
  C7. Let \<open>z\<close> be the value of \<open>ytm\<close> after \<open>j\<close> passes that all ended in the update. If
  pass \<open>j + 1\<close> exists, does not meet the tolerance and finds a finite-difference derivative
  of exactly zero, \<open>calculate_yield_to_maturity\<close> returns \<open>z\<close>. If \<open>j\<close> is \<open>max_iterations\<close>,
  the passes are used up and it returns \<open>z\<close>. A pass that meets the tolerance returns \<open>z\<close>
  in the same way: in all three cases the result is the bare number, no error is raised
  and nothing tells the cases apart.
\<close>

theorem ytm_silent_exit:
  assumes "ytm_after P F c Y f tol j c = Some z"
  shows "(j < nat m \<and> calculate_bond_price F c Y z f = Inr cp \<and> \<not> \<bar>cp - P\<bar> < tol
            \<and> calculate_bond_price F c Y (z + 1 / 10000) f = Inr pu
            \<and> (pu - cp) / (1 / 10000) = 0
          \<longrightarrow> calculate_yield_to_maturity P F c Y f tol m = Inr z)
       \<and> (j = nat m \<longrightarrow> calculate_yield_to_maturity P F c Y f tol m = Inr z)
       \<and> (j < nat m \<and> calculate_bond_price F c Y z f = Inr cp \<and> \<bar>cp - P\<bar> < tol
          \<longrightarrow> calculate_yield_to_maturity P F c Y f tol m = Inr z)"
proof (intro conjI impI)
  have split: "calculate_yield_to_maturity P F c Y f tol m = ytm_loop P F c Y f tol (nat m - j) z"
    if "j \<le> nat m"
  proof -
    have "nat m = j + (nat m - j)" using that by simp
    then have "ytm_loop P F c Y f tol (nat m) c = ytm_loop P F c Y f tol (j + (nat m - j)) c"
      by simp
    also have "\<dots> = ytm_loop P F c Y f tol (nat m - j) z"
      using assms by (rule ytm_loop_after)
    finally show ?thesis by (simp add: calculate_yield_to_maturity_def)
  qed
  {
    assume h: "j < nat m \<and> calculate_bond_price F c Y z f = Inr cp \<and> \<not> \<bar>cp - P\<bar> < tol
        \<and> calculate_bond_price F c Y (z + 1 / 10000) f = Inr pu \<and> (pu - cp) / (1 / 10000) = 0"
    then obtain k where k: "nat m - j = Suc k" by (cases "nat m - j") auto
    from h have "calculate_bond_price F c Y z f = Inr cp" "\<not> \<bar>cp - P\<bar> < tol"
      "calculate_bond_price F c Y (z + 1 / 10000) f = Inr pu" "(pu - cp) / (1 / 10000) = 0"
      by blast+
    then have "ytm_iteration P F c Y f tol z = Inr Break"
      by (rule ytm_iteration_break)
    then have "ytm_loop P F c Y f tol (Suc k) z = Inr z" by simp
    with split k h show "calculate_yield_to_maturity P F c Y f tol m = Inr z" by simp
  }
  {
    assume "j = nat m"
    with split show "calculate_yield_to_maturity P F c Y f tol m = Inr z" by simp
  }
  {
    assume h: "j < nat m \<and> calculate_bond_price F c Y z f = Inr cp \<and> \<bar>cp - P\<bar> < tol"
    then obtain k where k: "nat m - j = Suc k" by (cases "nat m - j") auto
    from h have "calculate_bond_price F c Y z f = Inr cp" "\<bar>cp - P\<bar> < tol" by blast+
    then have "ytm_iteration P F c Y f tol z = Inr Return"
      by (rule ytm_iteration_return)
    then have "ytm_loop P F c Y f tol (Suc k) z = Inr z" by simp
    with split k h show "calculate_yield_to_maturity P F c Y f tol m = Inr z" by simp
  }
qed

text \<open>
  A bond without periods has a flat price curve and leaves through the \<open>break\<close>; a single
  allowed pass is used up by one update; a bond priced at par meets the tolerance at once.
\<close>

lemma price_no_period: "calculate_bond_price 1000 (1 / 20) 0 (1 / 20) 2 = Inr 1000"
  by (simp add: calculate_bond_price_def py_div_def py_pow_def py_int_def Let_def)

lemma price_no_period_up: "calculate_bond_price 1000 (1 / 20) 0 (1 / 20 + 1 / 10000) 2 = Inr 1000"
  by (simp add: calculate_bond_price_def py_div_def py_pow_def py_int_def Let_def)

lemma price_at_par: "calculate_bond_price 1000 (1 / 20) 1 (1 / 20) 1 = Inr 1000"
  by (simp add: calculate_bond_price_def py_div_def py_pow_def py_int_def Let_def)

lemma price_above_par: "calculate_bond_price 1000 (1 / 20) 1 (1 / 20 + 1 / 10000) 1 = Inr (10500000 / 10501)"
  by (simp add: calculate_bond_price_def py_div_def py_pow_def py_int_def Let_def)

lemma one_pass:
  "ytm_after 950 1000 (1 / 20) 1 1 (1 / 10000) 1 (1 / 20) = Some (20501 / 200000)"
proof -
  have "ytm_iteration 950 1000 (1 / 20) 1 1 (1 / 10000) (1 / 20) = Inr (Continue (20501 / 200000))"
    using price_at_par price_above_par
    by (simp add: ytm_iteration_def py_div_def Let_def)
  then have "ytm_after 950 1000 (1 / 20) 1 1 (1 / 10000) (Suc 0) (1 / 20) = Some (20501 / 200000)"
    by simp
  then show ?thesis by simp
qed

theorem ytm_silent_exit_witness:
  "calculate_yield_to_maturity 950 1000 (1 / 20) 0 2 (1 / 10000) 100 = Inr (1 / 20)
   \<and> calculate_yield_to_maturity 950 1000 (1 / 20) 1 1 (1 / 10000) 1 = Inr (20501 / 200000)
   \<and> calculate_yield_to_maturity 1000 1000 (1 / 20) 1 1 (1 / 10000) 100 = Inr (1 / 20)"
proof -
  have a0: "ytm_after 950 1000 (1 / 20) 0 2 (1 / 10000) 0 (1 / 20) = Some (1 / 20)" by simp
  have a: "calculate_yield_to_maturity 950 1000 (1 / 20) 0 2 (1 / 10000) 100 = Inr (1 / 20)"
    using ytm_silent_exit [OF a0, of 100 1000 1000] price_no_period price_no_period_up by simp
  have b: "calculate_yield_to_maturity 950 1000 (1 / 20) 1 1 (1 / 10000) 1 = Inr (20501 / 200000)"
    using ytm_silent_exit [OF one_pass, of 1] by simp
  have c0: "ytm_after 1000 1000 (1 / 20) 1 1 (1 / 10000) 0 (1 / 20) = Some (1 / 20)" by simp
  have c: "calculate_yield_to_maturity 1000 1000 (1 / 20) 1 1 (1 / 10000) 100 = Inr (1 / 20)"
    using ytm_silent_exit [OF c0, of 100 1000] price_at_par by simp
  show ?thesis using a b c by simp
qed

subsection \<open>The round trip through the solver\<close>














































subsection \<open>Macaulay duration\<close>

lemma macaulay_step_zero_coupon:
  assumes "0 < 1 + i" "f \<noteq> 0"
  shows "macaulay_step 0 F i f n t w =
           Inr (if t = n then w + of_int n / of_int f * (F / power_int (1 + i) n) else w)"
proof -
  have d: "power_int (1 + i) t \<noteq> 0" using assms(1) by simp
  show ?thesis using assms d
    by (simp add: macaulay_step_def py_pow_def py_div_def Let_def)
qed

lemma macaulay_loop_zero_coupon:
  assumes "0 < 1 + i" "f \<noteq> 0"
  shows "k \<le> n \<Longrightarrow> macaulay_loop 0 F i f n [k..n] w =
           Inr (w + of_int n / of_int f * (F / power_int (1 + i) n))"
proof (induction "nat (n - k)" arbitrary: k w)
  case 0
  then have kn: "k = n" by simp
  have "[n..n] = [n]" by (simp add: upto_rec1)
  then show ?case using kn macaulay_step_zero_coupon [OF assms, of F n n w] by simp
next
  case (Suc m)
  then have lt: "k < n" and le: "k + 1 \<le> n" and m: "m = nat (n - (k + 1))" by simp_all
  have u: "[k..n] = k # [k + 1..n]" using lt by (simp add: upto_rec1)
  have st: "macaulay_step 0 F i f n k w = Inr w"
    using macaulay_step_zero_coupon [OF assms, of F n k w] lt by simp
  show ?case using Suc.hyps(1) [OF m le, of w] st by (simp add: u)
qed

text \<open>
  C4. For a zero-coupon bond (\<open>coupon_rate = 0\<close>) with a non-zero face value, a positive
  frequency, \<open>floor(Y*f) \<ge> 1\<close> and \<open>1 + yield_rate/f > 0\<close>, \<open>calculate_macaulay_duration\<close>
  returns \<open>floor(Y*f) / f\<close>, the maturity rounded down to whole periods; this is
  \<open>years_to_maturity\<close> itself when \<open>Y*f\<close> is a whole number.
\<close>

theorem zero_coupon_duration:
  assumes "0 < f" "F \<noteq> 0" "1 \<le> \<lfloor>Y * of_int f\<rfloor>" "0 < 1 + y / of_int f"
  shows "calculate_macaulay_duration F 0 Y y f = Inr (of_int \<lfloor>Y * of_int f\<rfloor> / of_int f)
       \<and> (of_int \<lfloor>Y * of_int f\<rfloor> = Y * of_int f \<longrightarrow> calculate_macaulay_duration F 0 Y y f = Inr Y)"
proof -
  let ?i = "y / of_int f" and ?n = "\<lfloor>Y * of_int f\<rfloor>"
  have f0: "f \<noteq> 0" and fr: "of_int f \<noteq> (0::real)" using assms(1) by simp_all
  have Yf: "0 \<le> Y * of_int f"
  proof (rule ccontr)
    assume "\<not> 0 \<le> Y * of_int f"
    then have "\<lfloor>Y * of_int f\<rfloor> < 0" by (simp add: floor_less_iff)
    with assms(3) show False by simp
  qed
  then have n: "py_int (Y * of_int f) = ?n" by (rule py_int_nonneg)
  have n0: "0 \<le> ?n" using assms(3) by simp
  have pw: "power_int (1 + ?i) ?n \<noteq> 0" using assms(4) by simp
  let ?pv = "F / power_int (1 + ?i) ?n"
  have pv0: "?pv \<noteq> 0" using assms(2) pw by simp
  have price: "calculate_bond_price F 0 Y y f = Inr ?pv"
  proof (cases "y = 0")
    case True
    then show ?thesis using price_zero_yield [OF f0, of F 0 Y] by simp
  next
    case False
    have x0: "1 + ?i \<noteq> 0 \<or> py_int (Y * of_int f) = 0" using assms(4) by simp
    show ?thesis using price_nonzero_yield [OF f0 False x0, of F 0] by (simp add: n)
  qed
  have loop: "macaulay_loop 0 F ?i f ?n [1..?n] 0 = Inr (0 + of_int ?n / of_int f * ?pv)"
    using assms(3) by (rule macaulay_loop_zero_coupon [OF assms(4) f0])
  have res: "calculate_macaulay_duration F 0 Y y f = Inr (of_int ?n / of_int f)"
    using fr price loop pv0
    by (simp add: calculate_macaulay_duration_def Let_def n py_div_def)
  show ?thesis
  proof (intro conjI impI)
    show "calculate_macaulay_duration F 0 Y y f = Inr (of_int ?n / of_int f)" by (rule res)
    assume e: "of_int ?n = Y * of_int f"
    have "of_int ?n / of_int f = (Y * of_int f) / of_int f" by (simp only: e)
    then have "of_int ?n / of_int f = Y" using fr by (simp del: of_int_floor_cancel)
    with res show "calculate_macaulay_duration F 0 Y y f = Inr Y" by simp
  qed
qed

text \<open>
  One and a half years at one payment a year is one period: the duration is 1, not 1.5.
\<close>

theorem zero_coupon_duration_counterexample:
  "1 \<le> \<lfloor>3 / 2 * of_int 1 :: real\<rfloor> \<and> (0::real) < 1 + 1 / of_int 1
   \<and> calculate_macaulay_duration 1000 0 (3 / 2) 1 1 = Inr 1"
  by (simp add: calculate_macaulay_duration_def calculate_bond_price_def macaulay_step_def
      py_div_def py_pow_def py_int_def Let_def)

theorem zero_coupon_duration_witness:
  "(0::int) < 1 \<and> (1000::real) \<noteq> 0 \<and> 1 \<le> \<lfloor>10 * of_int 1 :: real\<rfloor>
   \<and> (0::real) < 1 + (1 / 25) / of_int 1
   \<and> of_int \<lfloor>10 * of_int 1 :: real\<rfloor> = (10 * of_int 1 :: real)
   \<and> calculate_macaulay_duration 1000 0 10 (1 / 25) 1 = Inr 10"
proof -
  have h: "(0::int) < 1" "(1000::real) \<noteq> 0" "1 \<le> \<lfloor>10 * of_int 1 :: real\<rfloor>"
    "(0::real) < 1 + (1 / 25) / of_int 1" by simp_all
  show ?thesis using zero_coupon_duration [OF h] by simp
qed

subsection \<open>Convexity\<close>

lemma discounted_sum_pos:
  assumes "0 \<le> cp" "0 < F" "0 < x"
  shows "0 < discounted_sum cp F x n"
proof -
  have "0 \<le> (\<Sum>t = 1..n. inverse x ^ t)" using assms(3) by (intro sum_nonneg) simp
  then have "0 \<le> cp * (\<Sum>t = 1..n. inverse x ^ t)" using assms(1) by simp
  moreover have "0 < F * inverse x ^ n" using assms(2,3) by simp
  ultimately show ?thesis by (simp add: discounted_sum_def)
qed

lemma convexity_step_nonneg:
  assumes "0 < 1 + i" "0 \<le> cp" "0 \<le> F" "0 \<le> s"
  shows "\<exists>s'. convexity_step cp F i n t s = Inr s' \<and> 0 \<le> s'"
proof -
  let ?cf = "if t = n then cp + F else cp"
  have d: "0 < power_int (1 + i) t" using assms(1) by simp
  have cf: "0 \<le> ?cf" using assms by simp
  have tt: "0 \<le> t * (t + 1)"
  proof (cases "0 \<le> t")
    case True then show ?thesis by simp
  next
    case False
    then have "t \<le> 0" "t + 1 \<le> 0" by simp_all
    then show ?thesis by (rule mult_nonpos_nonpos)
  qed
  have tr: "(0::real) \<le> of_int (t * (t + 1))" using tt by (simp only: of_int_0_le_iff)
  have "0 \<le> ?cf / power_int (1 + i) t" using cf d by (rule divide_nonneg_pos)
  with tr have "0 \<le> of_int (t * (t + 1)) * (?cf / power_int (1 + i) t)"
    by (rule mult_nonneg_nonneg)
  then have "0 \<le> s + of_int (t * (t + 1)) * (?cf / power_int (1 + i) t)"
    using assms(4) by simp
  moreover have "convexity_step cp F i n t s = Inr (s + of_int (t * (t + 1)) * (?cf / power_int (1 + i) t))"
    using assms(1) d by (simp add: convexity_step_def py_pow_def py_div_def Let_def)
  ultimately show ?thesis by simp
qed

lemma convexity_loop_nonneg:
  assumes "0 < 1 + i" "0 \<le> cp" "0 \<le> F"
  shows "0 \<le> s \<Longrightarrow> \<exists>s'. convexity_loop cp F i n ts s = Inr s' \<and> 0 \<le> s'"
proof (induction ts arbitrary: s)
  case Nil
  then show ?case by simp
next
  case (Cons t ts)
  from convexity_step_nonneg [OF assms Cons.prems, of n t]
  obtain s1 where s1: "convexity_step cp F i n t s = Inr s1" "0 \<le> s1" by blast
  from Cons.IH [OF s1(2)] s1(1) show ?case by simp
qed

text \<open>
  C8. For a bond with \<open>face_value > 0\<close>, \<open>coupon_rate > 0\<close>, \<open>yield_rate > 0\<close>, a positive
  frequency and \<open>floor(Y*f) \<ge> 1\<close>, \<open>calculate_convexity\<close> returns a value that is at least 0.
\<close>

theorem convexity_nonneg:
  assumes "0 < F" "0 < c" "0 < y" "0 < f" "1 \<le> \<lfloor>Y * of_int f\<rfloor>"
  shows "\<exists>v. calculate_convexity F c Y y f = Inr v \<and> 0 \<le> v"
proof -
  let ?cp = "F * c / of_int f" and ?i = "y / of_int f"
  let ?n = "py_int (Y * of_int f)"
  have f0: "of_int f \<noteq> (0::real)" using assms by simp
  have i: "0 < ?i" using assms by simp
  then have x: "0 < 1 + ?i" by simp
  have cp: "0 \<le> ?cp" using assms by simp
  have Y: "0 \<le> Y"
  proof (rule ccontr)
    assume "\<not> 0 \<le> Y"
    then have "Y * of_int f < 0" using assms(4) by (simp add: mult_neg_pos)
    then have "\<lfloor>Y * of_int f\<rfloor> < 0" by (simp add: floor_less_iff)
    with assms(5) show False by simp
  qed
  have y0: "y \<noteq> 0" using assms by simp
  obtain p where p: "calculate_bond_price F c Y y f = Inr p" "0 < p"
    using price_discounted_sum [OF assms(4) y0 x Y, of F c]
      discounted_sum_pos [OF cp assms(1) x] by blast
  obtain s where s: "convexity_loop ?cp F ?i ?n [1..?n] 0 = Inr s" "0 \<le> s"
    using convexity_loop_nonneg [OF x cp, of F 0 ?n "[1..?n]"] assms(1) by auto
  have den: "0 < p * power_int (1 + ?i) 2 * of_int (f ^ 2)"
    using p(2) x assms(4) by (intro mult_pos_pos) simp_all
  have "calculate_convexity F c Y y f = Inr (s / (p * power_int (1 + ?i) 2 * of_int (f ^ 2)))"
    using f0 p s(1) den x
    by (simp add: calculate_convexity_def Let_def py_div_def py_pow_def)
  moreover have "0 \<le> s / (p * power_int (1 + ?i) 2 * of_int (f ^ 2))"
    using s(2) den by (intro divide_nonneg_pos)
  ultimately show ?thesis by blast
qed

theorem convexity_nonneg_witness:
  "(0::real) < 1000 \<and> (0::real) < 1 / 20 \<and> (0::real) < 3 / 50 \<and> (0::int) < 2
   \<and> 1 \<le> \<lfloor>5 * of_int 2 :: real\<rfloor>
   \<and> (\<exists>v. calculate_convexity 1000 (1 / 20) 5 (3 / 50) 2 = Inr v \<and> 0 \<le> v)"
proof -
  have h: "(0::real) < 1000" "(0::real) < 1 / 20" "(0::real) < 3 / 50" "(0::int) < 2"
    "1 \<le> \<lfloor>5 * of_int 2 :: real\<rfloor>" by simp_all
  show ?thesis using convexity_nonneg [OF h] h by simp
qed

subsection \<open>The cash-flow schedule\<close>

lemma py_int_quotient:
  assumes "0 \<le> a" "0 < b"
  shows "py_int (of_int a / of_int b) = a div b"
proof -
  have "(0::real) \<le> of_int a / of_int b" using assms by simp
  then show ?thesis by (simp add: py_int_nonneg floor_divide_of_int_eq)
qed

lemma schedule_entry_payment:
  assumes "0 < f" "1 \<le> i" "i \<le> n" "1 \<le> ordinal start"
    "ordinal start + (n * 365) div f \<le> max_ordinal"
  shows "schedule_entry start cp F f n i = Inr (payment start cp F f n i)"
proof -
  let ?k = "(i * 365) div f"
  have k: "py_int (of_int (i * 365) / of_int f) = ?k"
    using assms(1,2) by (intro py_int_quotient) simp_all
  have k0: "0 \<le> ?k" using assms(1,2) by (simp add: pos_imp_zdiv_nonneg_iff)
  have "?k \<le> (n * 365) div f" using assms(1,3) by (intro zdiv_mono1) simp_all
  then have hi: "ordinal start + ?k \<le> max_ordinal" using assms(5) by simp
  have lo: "1 \<le> ordinal start + ?k" using k0 assms(4) by simp
  have "?k \<le> max_ordinal" using hi assms(4) by simp
  then have ab: "\<bar>?k\<bar> \<le> max_delta_days" using k0 by (simp add: max_ordinal_def max_delta_days_def)
  have "add_days start ?k = Inr (start\<lparr>ordinal := ordinal start + ?k\<rparr>)"
    using ab lo hi by (simp add: add_days_def)
  then show ?thesis using assms(1)
    by (simp add: schedule_entry_def py_div_def payment_def k del: of_int_mult)
qed

lemma schedule_loop_map:
  assumes "\<And>i. i \<in> set js \<Longrightarrow> schedule_entry start cp F f n i = Inr (g i)"
  shows "schedule_loop start cp F f n js acc = Inr (acc @ map g js)"
  using assms
proof (induction js arbitrary: acc)
  case Nil
  show ?case by simp
next
  case (Cons j js)
  have "schedule_entry start cp F f n j = Inr (g j)" using Cons.prems by simp
  moreover have "schedule_loop start cp F f n js (acc @ [g j]) = Inr ((acc @ [g j]) @ map g js)"
    using Cons.prems by (intro Cons.IH) simp
  ultimately show ?case by simp
qed

text \<open>
  C5. For a positive frequency and an explicit start date, with \<open>n = int(Y*f)\<close> (which is
  \<open>floor(Y*f)\<close> for \<open>Y \<ge> 0\<close>) and the last payment date \<open>start_date + floor(n*365/f)\<close> days
  not after 9999-12-31, \<open>generate_cash_flow_schedule\<close> returns the entries of the periods
  \<open>1..n\<close> in order, none when \<open>n \<le> 0\<close>: entry \<open>i\<close> is dated \<open>start_date + floor(i*365/f)\<close>
  days and pays \<open>F*c/f\<close>, the last one \<open>F*c/f + F\<close>.
\<close>

theorem cash_flow_schedule:
  assumes "0 < f" "valid_datetime start"
    "ordinal start + (py_int (Y * of_int f) * 365) div f \<le> max_ordinal"
  shows "generate_cash_flow_schedule F c Y f (Some start) now =
           Inr (map (payment start (F * c / of_int f) F f (py_int (Y * of_int f)))
                  [1..py_int (Y * of_int f)])
       \<and> length [1..py_int (Y * of_int f)] = nat (py_int (Y * of_int f))
       \<and> (0 \<le> Y \<longrightarrow> py_int (Y * of_int f) = \<lfloor>Y * of_int f\<rfloor>)"
proof (intro conjI)
  let ?n = "py_int (Y * of_int f)"
  have s1: "1 \<le> ordinal start" using assms(2) by (simp add: valid_datetime_def)
  have e: "schedule_entry start (F * c / of_int f) F f ?n i =
      Inr (payment start (F * c / of_int f) F f ?n i)" if "i \<in> set [1..?n]" for i
    using that assms(1) s1 assms(3) by (intro schedule_entry_payment) simp_all
  have "schedule_loop start (F * c / of_int f) F f ?n [1..?n] [] =
      Inr ([] @ map (payment start (F * c / of_int f) F f ?n) [1..?n])"
    using e by (rule schedule_loop_map)
  then show "generate_cash_flow_schedule F c Y f (Some start) now =
      Inr (map (payment start (F * c / of_int f) F f ?n) [1..?n])"
    using assms(1)
    by (simp add: generate_cash_flow_schedule_def Let_def py_div_def py_floordiv_def)
  show "length [1..?n] = nat ?n" by simp
  show "0 \<le> Y \<longrightarrow> ?n = \<lfloor>Y * of_int f\<rfloor>"
    using assms(1) by (simp add: py_int_nonneg)
qed

text \<open>
  Four payments a year: the third falls 273 days after the start, where \<open>3 * 365 / 4\<close>
  rounds to 274. A schedule that starts on 9999-01-01 leaves the range of \<open>datetime\<close>.
\<close>

theorem cash_flow_schedule_counterexample:
  "generate_cash_flow_schedule 1000 (1 / 20) 1 4 (Some \<lparr>ordinal = 738000, day_micros = 0\<rparr>)
       \<lparr>ordinal = 739000, day_micros = 0\<rparr> =
     Inr [(\<lparr>ordinal = 738091, day_micros = 0\<rparr>, 25 / 2),
          (\<lparr>ordinal = 738182, day_micros = 0\<rparr>, 25 / 2),
          (\<lparr>ordinal = 738273, day_micros = 0\<rparr>, 25 / 2),
          (\<lparr>ordinal = 738365, day_micros = 0\<rparr>, 2025 / 2)]
   \<and> 738000 + round (3 * 365 / 4 :: real) = 738274
   \<and> valid_datetime \<lparr>ordinal = 3651695, day_micros = 0\<rparr>
   \<and> generate_cash_flow_schedule 1000 (1 / 20) 1 1 (Some \<lparr>ordinal = 3651695, day_micros = 0\<rparr>)
       \<lparr>ordinal = 739000, day_micros = 0\<rparr> = Inl OverflowError"
proof -
  have u: "[1..4] = [1, 2, 3, 4 :: int]" by (simp add: upto_rec1)
  show ?thesis
    by (simp add: generate_cash_flow_schedule_def schedule_entry_def add_days_def py_div_def
        py_floordiv_def py_int_def Let_def max_ordinal_def max_delta_days_def round_def u
        valid_datetime_def micros_per_day_def)
qed

theorem cash_flow_schedule_witness:
  "(0::int) < 2 \<and> valid_datetime \<lparr>ordinal = 738000, day_micros = 0\<rparr> \<and> (0::real) \<le> 1
   \<and> generate_cash_flow_schedule 1000 (1 / 20) 1 2 (Some \<lparr>ordinal = 738000, day_micros = 0\<rparr>)
         \<lparr>ordinal = 739000, day_micros = 0\<rparr> =
       Inr [(\<lparr>ordinal = 738182, day_micros = 0\<rparr>, 25),
            (\<lparr>ordinal = 738365, day_micros = 0\<rparr>, 1025)]
   \<and> generate_cash_flow_schedule 1000 (1 / 20) (1 / 4) 2
         (Some \<lparr>ordinal = 738000, day_micros = 0\<rparr>) \<lparr>ordinal = 739000, day_micros = 0\<rparr> = Inr []"
proof -
  let ?s = "\<lparr>ordinal = 738000, day_micros = 0\<rparr>"
  have f: "(0::int) < 2" by simp
  have v: "valid_datetime ?s"
    by (simp add: valid_datetime_def max_ordinal_def micros_per_day_def)
  have r1: "ordinal ?s + (py_int (1 * of_int 2) * 365) div 2 \<le> max_ordinal"
    by (simp add: py_int_def max_ordinal_def)
  have r0: "ordinal ?s + (py_int (1 / 4 * of_int 2) * 365) div 2 \<le> max_ordinal"
    by (simp add: py_int_def max_ordinal_def)
  have u: "[1..2] = [1, 2 :: int]" by (simp add: upto_rec1)
  have a: "generate_cash_flow_schedule 1000 (1 / 20) 1 2 (Some ?s) \<lparr>ordinal = 739000, day_micros = 0\<rparr> =
       Inr [(\<lparr>ordinal = 738182, day_micros = 0\<rparr>, 25), (\<lparr>ordinal = 738365, day_micros = 0\<rparr>, 1025)]"
    using cash_flow_schedule [OF f v r1, of 1000 "1 / 20" "\<lparr>ordinal = 739000, day_micros = 0\<rparr>"]
    by (simp add: py_int_def u payment_def)
  have b: "generate_cash_flow_schedule 1000 (1 / 20) (1 / 4) 2 (Some ?s) \<lparr>ordinal = 739000, day_micros = 0\<rparr> = Inr []"
    using cash_flow_schedule [OF f v r0, of 1000 "1 / 20" "\<lparr>ordinal = 739000, day_micros = 0\<rparr>"]
    by (simp add: py_int_def)
  show ?thesis using a b v by simp
qed

subsection \<open>Accrued interest\<close>

text \<open>
  C9. For a positive frequency \<open>f\<close>, \<open>calculate_accrued_interest\<close> returns
  \<open>(F*c/f) * (d / (365/f))\<close> where \<open>d\<close> is \<open>(settlement_date - last_coupon_date).days\<close>. A
  negative \<open>d\<close> is not rejected: with a positive coupon the accrual is then negative.
\<close>

theorem accrued_interest_formula:
  assumes "0 < f"
  shows "calculate_accrued_interest F c lcd sd f =
           Inr ((F * c / of_int f) * (of_int (days_between sd lcd) / (365 / of_int f)))
         \<and> (days_between sd lcd < 0 \<and> 0 < F * c \<longrightarrow>
              (\<exists>a. calculate_accrued_interest F c lcd sd f = Inr a \<and> a < 0))"
proof -
  let ?d = "days_between sd lcd"
  let ?a = "(F * c / of_int f) * (of_int ?d / (365 / of_int f))"
  have eq: "calculate_accrued_interest F c lcd sd f = Inr ?a"
    using assms by (simp add: calculate_accrued_interest_def py_div_def)
  have neg: "?a < 0" if "?d < 0" "0 < F * c"
  proof -
    have "0 < F * c / of_int f" using assms that by simp
    moreover have "of_int ?d / (365 / real_of_int f) < 0"
      using assms that by (simp add: mult_neg_pos)
    ultimately show ?thesis by (rule mult_pos_neg)
  qed
  show ?thesis
  proof (intro conjI impI)
    show "calculate_accrued_interest F c lcd sd f = Inr ?a" by (rule eq)
    assume "?d < 0 \<and> 0 < F * c"
    then have "?a < 0" using neg by blast
    with eq show "\<exists>a. calculate_accrued_interest F c lcd sd f = Inr a \<and> a < 0" by blast
  qed
qed

theorem accrued_interest_formula_witness:
  "(0::int) < 2
   \<and> days_between \<lparr>ordinal = 738000, day_micros = 0\<rparr> \<lparr>ordinal = 738045, day_micros = 0\<rparr> = - 45
   \<and> (0::real) < 1000 * (3 / 50)
   \<and> calculate_accrued_interest 1000 (3 / 50) \<lparr>ordinal = 738045, day_micros = 0\<rparr>
         \<lparr>ordinal = 738000, day_micros = 0\<rparr> 2 = Inr (- (540 / 73))
   \<and> (\<exists>a. calculate_accrued_interest 1000 (3 / 50) \<lparr>ordinal = 738045, day_micros = 0\<rparr>
         \<lparr>ordinal = 738000, day_micros = 0\<rparr> 2 = Inr a \<and> a < 0)"
proof -
  have d: "days_between \<lparr>ordinal = 738000, day_micros = 0\<rparr> \<lparr>ordinal = 738045, day_micros = 0\<rparr> = - 45"
    by (simp add: days_between_def micros_per_day_def)
  have f: "(0::int) < 2" by simp
  show ?thesis
    using accrued_interest_formula [OF f, of 1000 "3 / 50" "\<lparr>ordinal = 738045, day_micros = 0\<rparr>"
        "\<lparr>ordinal = 738000, day_micros = 0\<rparr>"] d
    by simp
qed

end
